theory Spec2Isabelle
  imports Complex_Main "HOL-Library.Multiset" "HOL-Library.Sublist"
begin

section \<open>Python values and dictionaries\<close>

text \<open>
  The program (\<open>src/emg.py\<close>) keeps every user as a Python dictionary whose values are
  strings, integers, floats or \<open>None\<close>. Floats are modelled as reals. A dictionary is an
  association list, so that the insertion order of its keys is kept (the order the CSV
  export and the data frame columns depend on).
\<close>

datatype pyval = PNone | PInt int | PFloat real | PStr string

type_synonym pydict = "(string \<times> pyval) list"

text \<open>\<open>d.get(k)\<close>: the value stored under \<open>k\<close>, \<open>None\<close> when the key is absent.\<close>

definition dict_get :: "pydict \<Rightarrow> string \<Rightarrow> pyval" where
  "dict_get d k = (case map_of d k of None \<Rightarrow> PNone | Some v \<Rightarrow> v)"

text \<open>\<open>d[k] = v\<close>: an existing key keeps its position, a new key goes last.\<close>

fun dict_set :: "pydict \<Rightarrow> string \<Rightarrow> pyval \<Rightarrow> pydict" where
  "dict_set [] k v = [(k, v)]"
| "dict_set ((k', v') # d) k v =
     (if k' = k then (k, v) # d else (k', v') # dict_set d k v)"

text \<open>Python's truth value of an object, as \<open>if x:\<close> and \<open>x or y\<close> read it.\<close>

fun truthy :: "pyval \<Rightarrow> bool" where
  "truthy PNone = False"
| "truthy (PInt n) = (n \<noteq> 0)"
| "truthy (PFloat r) = (r \<noteq> 0)"
| "truthy (PStr s) = (s \<noteq> [])"

definition py_or :: "pyval \<Rightarrow> pyval \<Rightarrow> pyval" where
  "py_or a b = (if truthy a then a else b)"

text \<open>\<open>x == n\<close> for an integer \<open>n\<close>: a float compares by value, a string or \<open>None\<close> never
  equals an integer.\<close>

fun py_eq_int :: "pyval \<Rightarrow> int \<Rightarrow> bool" where
  "py_eq_int (PInt m) n = (m = n)"
| "py_eq_int (PFloat r) n = (r = of_int n)"
| "py_eq_int PNone n = False"
| "py_eq_int (PStr s) n = False"

text \<open>\<open>x == s\<close> for a string \<open>s\<close>: only a string with the same characters is equal.\<close>

fun py_eq_str :: "pyval \<Rightarrow> string \<Rightarrow> bool" where
  "py_eq_str (PStr t) s = (t = s)"
| "py_eq_str PNone s = False"
| "py_eq_str (PInt m) s = False"
| "py_eq_str (PFloat r) s = False"

section \<open>The external services\<close>

text \<open>
  The geocoding provider, the reverse geocoder, the geodesic distance of \<open>geopy\<close> and the
  clock are outside the program. Each is a parameter: a function giving the reply of the
  service, with a reply for the exception the program catches.
\<close>

datatype geo_reply = Found real real | NotFound | GeoRaised string

datatype rev_reply = RevFound string | RevNotFound | RevRaised string

type_synonym geocoder = "pyval \<Rightarrow> geo_reply"
type_synonym reverse_geocoder = "pyval \<Rightarrow> pyval \<Rightarrow> rev_reply"
type_synonym pycoords = "pyval \<times> pyval"

text \<open>The geodesic distance in kilometres; \<open>None\<close> stands for the exception \<open>geodesic\<close>
  raises on coordinates it does not accept.\<close>

type_synonym geodesic = "pycoords \<Rightarrow> pycoords \<Rightarrow> real option"

record world =
  geocoder_of :: geocoder
  reverse_of :: reverse_geocoder
  now :: string

definition CANTILAN_CENTER :: "real \<times> real" where
  "CANTILAN_CENTER = (93355 / 10000, 1259769 / 10000)"

definition geocode_address :: "geocoder \<Rightarrow> pyval \<Rightarrow> (real \<times> real) option" where
  "geocode_address svc address =
     (case svc address of
        Found la lo \<Rightarrow> Some (la, lo)
      | NotFound \<Rightarrow> None
      | GeoRaised e \<Rightarrow> None)"

definition get_distance :: "geodesic \<Rightarrow> pycoords \<Rightarrow> pycoords \<Rightarrow> real option" where
  "get_distance gd coord1 coord2 = gd coord1 coord2"

definition get_address_from_coords :: "reverse_geocoder \<Rightarrow> pyval \<Rightarrow> pyval \<Rightarrow> string" where
  "get_address_from_coords rsvc la lo =
     (case rsvc la lo of
        RevFound a \<Rightarrow> a
      | RevNotFound \<Rightarrow> ''Address not found''
      | RevRaised e \<Rightarrow> ''Error getting address: '' @ e)"

section \<open>The session store\<close>

record sos_record =
  sos_id :: int
  user_id :: pyval
  user_name :: pyval
  timestamp :: string
  lat :: pyval
  lon :: pyval
  sos_note :: string
  handled :: bool
  category :: "string option"
  address :: string

record report =
  report_id :: int
  reporter_id :: pyval
  reporter_name :: pyval
  report_timestamp :: string
  report_category :: string
  description :: string
  report_lat :: pyval
  report_lon :: pyval
  report_address :: string

record store =
  users :: "pydict list"
  sos_logs :: "sos_record list"
  reports :: "report list"

definition initialize_session_state :: store where
  "initialize_session_state = \<lparr>users = [], sos_logs = [], reports = []\<rparr>"

definition add_user :: "world \<Rightarrow> pydict \<Rightarrow> store \<Rightarrow> store" where
  "add_user w user st =
     (let u1 = dict_set user ''id'' (PInt (int (length (users st)) + 1));
          u2 = dict_set u1 ''registered_on'' (PStr (now w));
          (la, lo) =
            (if truthy (dict_get u2 ''property_address'') then
               (case geocode_address (geocoder_of w) (dict_get u2 ''property_address'') of
                  Some coords \<Rightarrow> coords
                | None \<Rightarrow> CANTILAN_CENTER)
             else CANTILAN_CENTER);
          u3 = dict_set (dict_set u2 ''latitude'' (PFloat la)) ''longitude'' (PFloat lo)
      in st\<lparr>users := users st @ [u3]\<rparr>)"

fun get_user_by_username :: "pydict list \<Rightarrow> string \<Rightarrow> pydict option" where
  "get_user_by_username [] username = None"
| "get_user_by_username (user # rest) username =
     (if py_eq_str (dict_get user ''username'') username then Some user
      else get_user_by_username rest username)"

fun validate_login :: "pydict list \<Rightarrow> string \<Rightarrow> string \<Rightarrow> pydict option" where
  "validate_login [] username password = None"
| "validate_login (user # rest) username password =
     (if py_eq_str (dict_get user ''username'') username
         \<and> py_eq_str (dict_get user ''password'') password
      then Some user
      else validate_login rest username password)"

definition delete_user_by_id :: "int \<Rightarrow> store \<Rightarrow> store" where
  "delete_user_by_id uid st =
     st\<lparr>users := filter (\<lambda>user. \<not> py_eq_int (dict_get user ''id'') uid) (users st),
        sos_logs := filter (\<lambda>log. \<not> py_eq_int (user_id log) uid) (sos_logs st)\<rparr>"

definition log_sos ::
  "world \<Rightarrow> pyval \<Rightarrow> pyval \<Rightarrow> pyval \<Rightarrow> pyval \<Rightarrow> string \<Rightarrow> string option \<Rightarrow> store \<Rightarrow> store" where
  "log_sos w uid uname la lo nt cat st =
     (let sid = int (length (sos_logs st)) + 1;
          sos = \<lparr>sos_id = sid, user_id = uid, user_name = uname, timestamp = now w,
                 lat = la, lon = lo, sos_note = nt, handled = False, category = cat,
                 address = get_address_from_coords (reverse_of w) la lo\<rparr>
      in st\<lparr>sos_logs := sos_logs st @ [sos]\<rparr>)"

text \<open>The loop of \<open>mark_sos_handled\<close> stops (\<open>break\<close>) at the first record with the id.\<close>

fun mark_first :: "int \<Rightarrow> sos_record list \<Rightarrow> sos_record list" where
  "mark_first sid [] = []"
| "mark_first sid (sos # rest) =
     (if sos_id sos = sid then sos\<lparr>handled := True\<rparr> # rest
      else sos # mark_first sid rest)"

definition mark_sos_handled :: "int \<Rightarrow> store \<Rightarrow> store" where
  "mark_sos_handled sid st = st\<lparr>sos_logs := mark_first sid (sos_logs st)\<rparr>"

definition add_report ::
  "world \<Rightarrow> pyval \<Rightarrow> pyval \<Rightarrow> string \<Rightarrow> string \<Rightarrow> pyval \<Rightarrow> pyval \<Rightarrow> store \<Rightarrow> store" where
  "add_report w rid rname cat descr la lo st =
     (let r = \<lparr>report_id = int (length (reports st)) + 1, reporter_id = rid,
               reporter_name = rname, report_timestamp = now w, report_category = cat,
               description = descr, report_lat = la, report_lon = lo,
               report_address = get_address_from_coords (reverse_of w) la lo\<rparr>
      in st\<lparr>reports := reports st @ [r]\<rparr>)"

section \<open>Triage: ranking alerts by distance\<close>

text \<open>
  The sort key and the running minimum are Python floats that may be \<open>float('inf')\<close>:
  a finite value or infinity, ordered as floats are.
\<close>

datatype xfloat = Finite real | Infinity

instantiation xfloat :: linorder
begin

fun less_eq_xfloat :: "xfloat \<Rightarrow> xfloat \<Rightarrow> bool" where
  "less_eq_xfloat (Finite a) (Finite b) = (a \<le> b)"
| "less_eq_xfloat (Finite a) Infinity = True"
| "less_eq_xfloat Infinity (Finite b) = False"
| "less_eq_xfloat Infinity Infinity = True"

fun less_xfloat :: "xfloat \<Rightarrow> xfloat \<Rightarrow> bool" where
  "less_xfloat (Finite a) (Finite b) = (a < b)"
| "less_xfloat (Finite a) Infinity = True"
| "less_xfloat Infinity (Finite b) = False"
| "less_xfloat Infinity Infinity = False"

instance
proof
  fix x y z :: xfloat
  show "(x < y) = (x \<le> y \<and> \<not> y \<le> x)"
    by (cases x; cases y) auto
  show "x \<le> x"
    by (cases x) auto
  show "x \<le> y \<Longrightarrow> y \<le> z \<Longrightarrow> x \<le> z"
    by (cases x; cases y; cases z) auto
  show "x \<le> y \<Longrightarrow> y \<le> x \<Longrightarrow> x = y"
    by (cases x; cases y) auto
  show "x \<le> y \<or> y \<le> x"
    by (cases x; cases y) auto
qed

end

text \<open>
  The responder dashboard (\<open>rescuer_dashboard\<close>): a distance is computed for every alert,
  the pairs are sorted with key \<open>x[1] if x[1] is not None else float('inf')\<close>
  (\<open>list.sort\<close> is a stable sort, as \<open>sort_key\<close> is), and two list comprehensions then
  split the sorted list by the \<open>handled\<close> flag.
\<close>

definition distance_key :: "'a \<times> real option \<Rightarrow> xfloat" where
  "distance_key x = (case snd x of Some d \<Rightarrow> Finite d | None \<Rightarrow> Infinity)"

definition alerts_with_distance ::
  "geodesic \<Rightarrow> pydict \<Rightarrow> sos_record list \<Rightarrow> (sos_record \<times> real option) list" where
  "alerts_with_distance gd user df_sos =
     (let responder_coords = (dict_get user ''latitude'', dict_get user ''longitude'');
          unsorted = map (\<lambda>alert. (alert, get_distance gd responder_coords (lat alert, lon alert))) df_sos
      in sort_key distance_key unsorted)"

definition unresolved_alerts :: "(sos_record \<times> real option) list \<Rightarrow> (sos_record \<times> real option) list" where
  "unresolved_alerts ranked = filter (\<lambda>alert_tuple. \<not> handled (fst alert_tuple)) ranked"

definition resolved_alerts :: "(sos_record \<times> real option) list \<Rightarrow> (sos_record \<times> real option) list" where
  "resolved_alerts ranked = filter (\<lambda>alert_tuple. handled (fst alert_tuple)) ranked"

text \<open>The order the ranking is to respect: known distances by value, unknown ones last.\<close>

fun dist_le :: "real option \<Rightarrow> real option \<Rightarrow> bool" where
  "dist_le (Some a) (Some b) = (a \<le> b)"
| "dist_le (Some a) None = True"
| "dist_le None (Some b) = False"
| "dist_le None None = True"

section \<open>The nearest responder\<close>

record hotline =
  Name :: string
  Contact :: string
  Address :: string

definition HOTLINES :: "hotline list" where
  "HOTLINES =
     [\<lparr>Name = ''BFP - Fire Station'', Contact = ''0917-000-0000'',
       Address = ''Brgy. Center, Cantilan, Surigao del Sur''\<rparr>,
      \<lparr>Name = ''PNP - Police Station'', Contact = ''0917-111-1111'',
       Address = ''Municipal Hall, Cantilan, Surigao del Sur''\<rparr>,
      \<lparr>Name = ''LGU Cantilan (DRRMO)'', Contact = ''0917-222-2222'',
       Address = ''Municipal Hall, Cantilan, Surigao del Sur''\<rparr>,
      \<lparr>Name = ''Municipal Health Office'', Contact = ''0917-333-3333'',
       Address = ''Health Center, Cantilan, Surigao del Sur''\<rparr>]"

text \<open>
  \<open>st.session_state.hotline_coordinates\<close>: the coordinates cached per address. The cache is
  filled once, with the town centre for an address the geocoder does not find.
\<close>

type_synonym coord_cache = "(string \<times> (real \<times> real)) list"

definition cache_hotline :: "geocoder \<Rightarrow> coord_cache \<Rightarrow> hotline \<Rightarrow> coord_cache" where
  "cache_hotline svc cache hotline =
     (case map_of cache (Address hotline) of
        Some c \<Rightarrow> cache
      | None \<Rightarrow>
          (case geocode_address svc (PStr (Address hotline)) of
             Some coords \<Rightarrow> cache @ [(Address hotline, coords)]
           | None \<Rightarrow> cache @ [(Address hotline, CANTILAN_CENTER)]))"

definition get_hotline_coordinates :: "geocoder \<Rightarrow> coord_cache \<Rightarrow> coord_cache" where
  "get_hotline_coordinates svc cache =
     (if cache = [] then foldl (cache_hotline svc) cache HOTLINES else cache)"

text \<open>
  The citizen dashboard (\<open>user_dashboard\<close>) scans the hotlines for the nearest one. The
  loop body is \<open>if distance and distance < min_distance\<close>: a distance that is \<open>None\<close> or
  \<open>0.0\<close> is false in Python and leaves the running minimum as it is. The scan runs only
  when the user's latitude and longitude are both true values.
\<close>

definition nearest_step ::
  "geodesic \<Rightarrow> pycoords \<Rightarrow> coord_cache \<Rightarrow> xfloat \<times> hotline option \<Rightarrow> hotline
     \<Rightarrow> xfloat \<times> hotline option" where
  "nearest_step gd user_coords hotline_coords acc hotline =
     (case map_of hotline_coords (Address hotline) of
        None \<Rightarrow> acc
      | Some (la, lo) \<Rightarrow>
          (case get_distance gd user_coords (PFloat la, PFloat lo) of
             None \<Rightarrow> acc
           | Some distance \<Rightarrow>
               if distance \<noteq> 0 \<and> Finite distance < fst acc
               then (Finite distance, Some hotline)
               else acc))"

definition nearest_responder ::
  "geodesic \<Rightarrow> pydict \<Rightarrow> coord_cache \<Rightarrow> hotline list \<Rightarrow> (hotline \<times> xfloat) option" where
  "nearest_responder gd user hotline_coords hotlines =
     (if truthy (dict_get user ''latitude'') \<and> truthy (dict_get user ''longitude'') then
        (let user_coords = (dict_get user ''latitude'', dict_get user ''longitude'');
             (min_distance, nearest_hotline) =
               foldl (nearest_step gd user_coords hotline_coords) (Infinity, None) hotlines
         in (case nearest_hotline of
               None \<Rightarrow> None
             | Some h \<Rightarrow> if min_distance \<noteq> Infinity then Some (h, min_distance) else None))
      else None)"

section \<open>The administrator's CSV export\<close>

text \<open>
  \<open>pd.DataFrame(users)\<close> has one column per key, in the order the keys first appear, and
  \<open>to_csv(index=False)\<close> writes the column names and then one row per user. The CSV text
  is modelled as its table of cells (a missing key is an empty cell, \<open>None\<close>); quoting
  and number formatting are pandas' own. The export button exists only when the data
  frame is not empty.
\<close>

fun union_keys :: "string list \<Rightarrow> string list \<Rightarrow> string list" where
  "union_keys seen [] = seen"
| "union_keys seen (k # ks) = union_keys (if k \<in> set seen then seen else seen @ [k]) ks"

definition DataFrame_columns :: "pydict list \<Rightarrow> string list" where
  "DataFrame_columns rows = union_keys [] (concat (map (map fst) rows))"

definition to_csv :: "pydict list \<Rightarrow> pyval list list" where
  "to_csv rows =
     (let columns = DataFrame_columns rows
      in map PStr columns # map (\<lambda>row. map (dict_get row) columns) rows)"

definition export_users_csv :: "store \<Rightarrow> pyval list list option" where
  "export_users_csv st = (if users st = [] then None else Some (to_csv (users st)))"

section \<open>The operations of the store as steps\<close>

text \<open>
  The operations that change the store, to speak about every state the program reaches
  from the empty store. Each step sees the world (services and clock) of its moment.
\<close>

datatype op =
    AddUser pydict
  | DeleteUser int
  | LogSos pyval pyval pyval pyval string "string option"
  | MarkHandled int
  | AddReport pyval pyval string string pyval pyval

fun apply_op :: "world \<Rightarrow> op \<Rightarrow> store \<Rightarrow> store" where
  "apply_op w (AddUser user) st = add_user w user st"
| "apply_op w (DeleteUser uid) st = delete_user_by_id uid st"
| "apply_op w (LogSos uid uname la lo nt cat) st = log_sos w uid uname la lo nt cat st"
| "apply_op w (MarkHandled sid) st = mark_sos_handled sid st"
| "apply_op w (AddReport rid rname cat descr la lo) st = add_report w rid rname cat descr la lo st"

fun run :: "(world \<times> op) list \<Rightarrow> store \<Rightarrow> store" where
  "run [] st = st"
| "run ((w, x) # rest) st = run rest (apply_op w x st)"

text \<open>An alert record after a step: as it was, or as it was with \<open>handled\<close> set.\<close>

definition handled_kept :: "sos_record \<Rightarrow> sos_record \<Rightarrow> bool" where
  "handled_kept a a' \<longleftrightarrow> a' = a \<or> a' = a\<lparr>handled := True\<rparr>"

section \<open>The administrator's delete action and the official's report form\<close>

datatype notice = Error string | Deleted int | Submitted | AlertSent

text \<open>
  The delete button of \<open>admin_dashboard\<close>: the number input gives an integer, the action
  compares it with the id of the logged-in user before it deletes.
\<close>

definition delete_user_action :: "pydict \<Rightarrow> int \<Rightarrow> store \<Rightarrow> notice option \<times> store" where
  "delete_user_action user user_id_to_delete st =
     (if user_id_to_delete > 0 then
        (if py_eq_int (dict_get user ''id'') user_id_to_delete
         then (Some (Error ''You cannot delete your own account!''), st)
         else (Some (Deleted user_id_to_delete), delete_user_by_id user_id_to_delete st))
      else (None, st))"

text \<open>
  The submit button of the report form in \<open>government_dashboard\<close>. \<open>incident_lat\<close> and
  \<open>incident_lon\<close> are the coordinates an earlier press of the geocode button left in the
  session, if any. After an error message the function returns and the store is as before.
\<close>

definition submit_official_report ::
  "world \<Rightarrow> pydict \<Rightarrow> real option \<Rightarrow> real option \<Rightarrow> string \<Rightarrow> string \<Rightarrow> string \<Rightarrow> store
     \<Rightarrow> notice \<times> store" where
  "submit_official_report w user incident_lat incident_lon cat descr incident_address st =
     (if \<not> (descr \<noteq> [] \<and> incident_address \<noteq> []) then
        (Error ''Please provide description and incident address.'', st)
      else
        (let rid = dict_get user ''id'';
             rname = py_or (dict_get user ''name'') (dict_get user ''username'')
         in (case (incident_lat, incident_lon) of
               (Some la, Some lo) \<Rightarrow>
                 (Submitted, add_report w rid rname cat descr (PFloat la) (PFloat lo) st)
             | _ \<Rightarrow>
                 (case geocode_address (geocoder_of w) (PStr incident_address) of
                    Some (la, lo) \<Rightarrow>
                      (Submitted, add_report w rid rname cat descr (PFloat la) (PFloat lo) st)
                  | None \<Rightarrow>
                      (Error ''Could not locate the incident address. Please try a more specific location.'',
                       st)))))"

section \<open>The citizen's alert form\<close>


definition send_emergency_alert ::
  "world \<Rightarrow> pydict \<Rightarrow> bool \<Rightarrow> (real \<times> real) option \<Rightarrow> string \<Rightarrow> string \<Rightarrow> store
     \<Rightarrow> notice \<times> store" where
  "send_emergency_alert w user use_registered temp_emergency_coords nt cat st =
     (let uid = dict_get user ''id'';
          uname = py_or (dict_get user ''name'') (dict_get user ''username'');
          cat' = (if cat = [] then None else Some cat)
      in if use_registered then
           (AlertSent,
            log_sos w uid uname (dict_get user ''latitude'') (dict_get user ''longitude'') nt cat' st)
         else
           (case temp_emergency_coords of
              Some (la, lo) \<Rightarrow> (AlertSent, log_sos w uid uname (PFloat la) (PFloat lo) nt cat' st)
            | None \<Rightarrow> (Error ''Please locate your current address first!'', st)))"

section \<open>The session and the actions of its pages\<close>

text \<open>
  \<open>st.session_state\<close>: the three collections and the logged-in user. The router
  (\<open>main_router\<close>) shows the signup and login pages only while nobody is logged in, and
  otherwise the dashboard of the logged-in user's role; each dashboard offers the actions
  below. \<open>current_user\<close> is the very dictionary that \<open>validate_login\<close> found in the users
  list, so the "Re-geocode" button changes that entry of the list too: the action carries
  the position of the entry.
\<close>

record session =
  db :: store
  current_user :: "pydict option"

definition initial_session :: session where
  "initial_session = \<lparr>db = initialize_session_state, current_user = None\<rparr>"

datatype action =
    Signup pydict
  | Login string string
  | Logout
  | SendAlert bool "(real \<times> real) option" string string
  | Regeocode nat
  | HandleAlert int
  | SubmitReport "real option" "real option" string string string
  | DeleteAccount int

definition has_role :: "pydict \<Rightarrow> string \<Rightarrow> bool" where
  "has_role user role = py_eq_str (dict_get user ''role'') role"

text \<open>
  A signup form whose checks pass calls \<open>add_user\<close> on the dictionary it built from its
  fields. The checks the four forms share are a non-empty username and
  \<open>get_user_by_username\<close> finding no user with it; the dictionary is any dictionary here.
\<close>

definition signup :: "world \<Rightarrow> pydict \<Rightarrow> store \<Rightarrow> store" where
  "signup w user st =
     (case dict_get user ''username'' of
        PStr username \<Rightarrow>
          (if username \<noteq> [] \<and> get_user_by_username (users st) username = None
           then add_user w user st else st)
      | _ \<Rightarrow> st)"

definition regeocode :: "world \<Rightarrow> pydict \<Rightarrow> pydict" where
  "regeocode w user =
     (if truthy (dict_get user ''property_address'') then
        (case geocode_address (geocoder_of w) (dict_get user ''property_address'') of
           Some (la, lo) \<Rightarrow> dict_set (dict_set user ''latitude'' (PFloat la)) ''longitude'' (PFloat lo)
         | None \<Rightarrow> user)
      else user)"

fun perform :: "world \<Rightarrow> action \<Rightarrow> session \<Rightarrow> session" where
  "perform w (Signup user) s =
     (case current_user s of
        None \<Rightarrow> s\<lparr>db := signup w user (db s)\<rparr>
      | Some c \<Rightarrow> s)"
| "perform w (Login username password) s =
     (case current_user s of
        None \<Rightarrow>
          (case validate_login (users (db s)) username password of
             None \<Rightarrow> s
           | Some user \<Rightarrow> s\<lparr>current_user := Some user\<rparr>)
      | Some c \<Rightarrow> s)"
| "perform w Logout s = s\<lparr>current_user := None\<rparr>"
| "perform w (SendAlert use_registered temp nt cat) s =
     (case current_user s of
        None \<Rightarrow> s
      | Some c \<Rightarrow>
          if has_role c ''user''
          then s\<lparr>db := snd (send_emergency_alert w c use_registered temp nt cat (db s))\<rparr>
          else s)"
| "perform w (Regeocode i) s =
     (case current_user s of
        None \<Rightarrow> s
      | Some c \<Rightarrow>
          if has_role c ''user'' \<and> i < length (users (db s)) \<and> users (db s) ! i = c
          then s\<lparr>db := (db s)\<lparr>users := (users (db s))[i := regeocode w c]\<rparr>,
                 current_user := Some (regeocode w c)\<rparr>
          else s)"
| "perform w (HandleAlert sid) s =
     (case current_user s of
        None \<Rightarrow> s
      | Some c \<Rightarrow>
          if has_role c ''rescuer'' then s\<lparr>db := mark_sos_handled sid (db s)\<rparr> else s)"
| "perform w (SubmitReport incident_lat incident_lon cat descr incident_address) s =
     (case current_user s of
        None \<Rightarrow> s
      | Some c \<Rightarrow>
          if has_role c ''government''
          then s\<lparr>db := snd (submit_official_report w c incident_lat incident_lon cat descr
                               incident_address (db s))\<rparr>
          else s)"
| "perform w (DeleteAccount user_id_to_delete) s =
     (case current_user s of
        None \<Rightarrow> s
      | Some c \<Rightarrow>
          if has_role c ''admin''
          then s\<lparr>db := snd (delete_user_action c user_id_to_delete (db s))\<rparr>
          else s)"

fun perform_all :: "(world \<times> action) list \<Rightarrow> session \<Rightarrow> session" where
  "perform_all [] s = s"
| "perform_all ((w, a) # rest) s = perform_all rest (perform w a s)"

text \<open>
  What the pages keep true of the session: every alert carries the id of a user of the
  users list, and the logged-in user is in the list.
\<close>

definition alerts_have_users :: "session \<Rightarrow> bool" where
  "alerts_have_users s \<longleftrightarrow>
     list_all (\<lambda>a. list_ex (\<lambda>u. dict_get u ''id'' = user_id a) (users (db s))) (sos_logs (db s))
     \<and> (case current_user s of None \<Rightarrow> True | Some c \<Rightarrow> c \<in> set (users (db s)))"

section \<open>Concrete inputs\<close>

definition bob :: pydict where
  "bob = [(''role'', PStr ''user''), (''username'', PStr ''bob''),
          (''password'', PStr ''secret''), (''name'', PStr ''Bob''), (''id'', PInt 1)]"

text \<open>A stand-in for the geodesic of \<open>geopy\<close>, to evaluate the program on concrete inputs.\<close>

fun taxicab :: geodesic where
  "taxicab (PFloat a, PFloat b) (PFloat c, PFloat d) = Some (\<bar>a - c\<bar> + \<bar>b - d\<bar>)"
| "taxicab p q = None"

definition responder :: pydict where
  "responder = [(''role'', PStr ''rescuer''), (''username'', PStr ''rita''),
                (''id'', PInt 2), (''latitude'', PFloat 9), (''longitude'', PFloat 125)]"

definition alert_at :: "int \<Rightarrow> pyval \<Rightarrow> pyval \<Rightarrow> bool \<Rightarrow> sos_record" where
  "alert_at n la lo h =
     \<lparr>sos_id = n, user_id = PInt 1, user_name = PStr ''Bob'', timestamp = ''2024-01-01 00:00:00'',
      lat = la, lon = lo, sos_note = [], handled = h, category = None, address = ''Address not found''\<rparr>"

text \<open>A world in which the geocoder and the reverse geocoder find nothing.\<close>

definition offline :: world where
  "offline = \<lparr>geocoder_of = (\<lambda>a. NotFound), reverse_of = (\<lambda>la lo. RevNotFound),
              now = ''2024-01-01 00:00:00''\<rparr>"

definition bob_form :: pydict where
  "bob_form = [(''role'', PStr ''user''), (''username'', PStr ''bob''),
          (''password'', PStr ''secret''), (''name'', PStr ''Bob''),
          (''property_address'', PStr ''Poblacion'')]"

definition alice_form :: pydict where
  "alice_form = [(''role'', PStr ''admin''), (''username'', PStr ''alice''),
          (''password'', PStr ''pw''), (''name'', PStr ''Alice''),
          (''property_address'', PStr ''Municipal Hall'')]"

definition carol_form :: pydict where
  "carol_form = [(''role'', PStr ''user''), (''username'', PStr ''carol''),
          (''password'', PStr ''pw2''), (''name'', PStr ''Carol''),
          (''property_address'', PStr ''Magasang'')]"


section \<open>Login\<close>

lemma validate_login_Some:
  "validate_login us n p = Some u \<Longrightarrow>
     u \<in> set us \<and> py_eq_str (dict_get u ''username'') n \<and> py_eq_str (dict_get u ''password'') p"
  by (induction us) (auto split: if_splits)

lemma validate_login_None:
  "validate_login us n p = None \<longleftrightarrow>
     (\<forall>u \<in> set us. \<not> (py_eq_str (dict_get u ''username'') n
                      \<and> py_eq_str (dict_get u ''password'') p))"
  by (induction us) auto

lemma py_eq_str_iff: "py_eq_str v s \<longleftrightarrow> v = PStr s"
  by (cases v) auto

text \<open>
  C7. \<open>validate_login\<close> returns a user exactly when the store holds a user whose username
  and password are both the given strings, and the user it returns is such a user of the
  store; otherwise it returns none. On a store holding bob with password secret, the
  wrong password gives none and the right one gives bob's record.
\<close>

theorem validate_login_exact_match:
  "(validate_login us n p \<noteq> None \<longleftrightarrow>
      (\<exists>u \<in> set us. dict_get u ''username'' = PStr n \<and> dict_get u ''password'' = PStr p))
   \<and> (\<forall>u. validate_login us n p = Some u \<longrightarrow>
          u \<in> set us \<and> dict_get u ''username'' = PStr n \<and> dict_get u ''password'' = PStr p)
   \<and> validate_login (pre @ [bob]) ''bob'' ''wrongpass'' = validate_login pre ''bob'' ''wrongpass''
   \<and> validate_login [bob] ''bob'' ''wrongpass'' = None
   \<and> validate_login [bob] ''bob'' ''secret'' = Some bob"
proof -
  have a: "validate_login us n p \<noteq> None \<longleftrightarrow>
      (\<exists>u \<in> set us. dict_get u ''username'' = PStr n \<and> dict_get u ''password'' = PStr p)"
    using validate_login_None [of us n p] by (simp add: py_eq_str_iff)
  have b: "\<forall>u. validate_login us n p = Some u \<longrightarrow>
          u \<in> set us \<and> dict_get u ''username'' = PStr n \<and> dict_get u ''password'' = PStr p"
    using validate_login_Some [of us n p] by (simp add: py_eq_str_iff)
  have c: "validate_login (pre @ [bob]) ''bob'' ''wrongpass'' = validate_login pre ''bob'' ''wrongpass''"
    by (induction pre) (simp_all add: bob_def dict_get_def)
  have d: "validate_login [bob] ''bob'' ''wrongpass'' = None"
    by (simp add: bob_def dict_get_def)
  have e: "validate_login [bob] ''bob'' ''secret'' = Some bob"
    by (simp add: bob_def dict_get_def)
  from a b c d e show ?thesis by blast
qed

theorem validate_login_exact_match_witness:
  "validate_login [bob] ''bob'' ''secret'' = Some bob
   \<and> bob \<in> set [bob] \<and> dict_get bob ''username'' = PStr ''bob''
   \<and> dict_get bob ''password'' = PStr ''secret''"
proof -
  have e: "validate_login [bob] ''bob'' ''secret'' = Some bob"
    by (simp add: bob_def dict_get_def)
  with validate_login_exact_match [of "[bob]" "''bob''" "''secret''" "[]"]
  show ?thesis by blast
qed

section \<open>Ranking and partition\<close>

lemma distance_key_le: "distance_key p \<le> distance_key q \<longleftrightarrow> dist_le (snd p) (snd q)"
  by (cases "snd p"; cases "snd q") (simp_all add: distance_key_def)

lemma distance_key_eq: "distance_key p = distance_key q \<longleftrightarrow> snd p = snd q"
  by (cases "snd p"; cases "snd q") (simp_all add: distance_key_def)

lemma sorted_by_distance: "sorted_wrt (\<lambda>p q. dist_le (snd p) (snd q)) (sort_key distance_key xs)"
proof -
  have "sorted (map distance_key (sort_key distance_key xs))"
    by (rule sorted_sort_key)
  then show ?thesis
    by (simp add: sorted_wrt_map distance_key_le sorted_map)
qed

lemma stable_by_distance:
  "filter (\<lambda>p. snd p = d) (sort_key distance_key xs) = filter (\<lambda>p. snd p = d) xs"
proof -
  define k where "k = distance_key (undefined :: 'a, d)"
  have "\<And>p :: 'a \<times> real option. (distance_key p = k) = (snd p = d)"
    unfolding k_def using distance_key_eq [of _ "(undefined, d)"] by simp
  then show ?thesis
    using sort_key_stable [of distance_key k xs] by simp
qed

text \<open>
  C1. For every observer and every sequence of alerts, the ranking pairs each alert with
  its computed distance (or none) and discards none; the output is sorted non-decreasing
  by distance with every alert of unknown distance after every alert of known distance;
  and alerts with equal distance (or both unknown) keep their relative input order.
\<close>

theorem alerts_with_distance_sorted_stable:
  "mset (alerts_with_distance gd user df_sos)
     = mset (map (\<lambda>alert. (alert, gd (dict_get user ''latitude'', dict_get user ''longitude'') (lat alert, lon alert))) df_sos)
   \<and> map fst (alerts_with_distance gd user []) = []
   \<and> mset (map fst (alerts_with_distance gd user df_sos)) = mset df_sos
   \<and> sorted_wrt (\<lambda>p q. dist_le (snd p) (snd q)) (alerts_with_distance gd user df_sos)
   \<and> (\<forall>i j. i < j \<and> j < length df_sos \<and> snd (alerts_with_distance gd user df_sos ! i) = None
          \<longrightarrow> snd (alerts_with_distance gd user df_sos ! j) = None)
   \<and> (\<forall>d. filter (\<lambda>p. snd p = d) (alerts_with_distance gd user df_sos)
          = filter (\<lambda>p. snd p = d)
              (map (\<lambda>alert. (alert, gd (dict_get user ''latitude'', dict_get user ''longitude'') (lat alert, lon alert))) df_sos))"
  (is "?A \<and> ?E \<and> ?B \<and> ?C \<and> ?D \<and> ?F")
proof -
  let ?un = "map (\<lambda>alert. (alert, gd (dict_get user ''latitude'', dict_get user ''longitude'') (lat alert, lon alert))) df_sos"
  have eq: "alerts_with_distance gd user df_sos = sort_key distance_key ?un"
    by (simp add: alerts_with_distance_def get_distance_def)
  have A: ?A by (simp add: eq)
  have E: ?E by (simp add: alerts_with_distance_def)
  have "mset (map fst (alerts_with_distance gd user df_sos)) = image_mset fst (mset ?un)"
    by (simp add: eq)
  also have "\<dots> = mset df_sos"
    by (simp add: image_mset.compositionality comp_def)
  finally have B: ?B .
  have C: ?C unfolding eq by (rule sorted_by_distance)
  have len: "length (alerts_with_distance gd user df_sos) = length df_sos"
    by (simp add: eq)
  have D: ?D
  proof (intro allI impI)
    fix i j
    assume h: "i < j \<and> j < length df_sos \<and> snd (alerts_with_distance gd user df_sos ! i) = None"
    have "\<forall>i j. i < j \<longrightarrow> j < length df_sos \<longrightarrow>
            dist_le (snd (alerts_with_distance gd user df_sos ! i)) (snd (alerts_with_distance gd user df_sos ! j))"
      using C len by (simp add: sorted_wrt_iff_nth_less)
    with h have "dist_le (snd (alerts_with_distance gd user df_sos ! i)) (snd (alerts_with_distance gd user df_sos ! j))"
      by blast
    with h show "snd (alerts_with_distance gd user df_sos ! j) = None"
      by (cases "snd (alerts_with_distance gd user df_sos ! j)") simp_all
  qed
  have F: ?F unfolding eq by (simp add: stable_by_distance)
  from A E B C D F show ?thesis by blast
qed


lemma ranking_example:
  "alerts_with_distance taxicab responder
     [alert_at 1 PNone PNone False, alert_at 2 (PFloat 9) (PFloat 127) False,
      alert_at 3 PNone (PFloat 125) True, alert_at 4 (PFloat 10) (PFloat 125) True,
      alert_at 5 (PFloat 11) (PFloat 125) False]
   = [(alert_at 4 (PFloat 10) (PFloat 125) True, Some 1),
      (alert_at 2 (PFloat 9) (PFloat 127) False, Some 2),
      (alert_at 5 (PFloat 11) (PFloat 125) False, Some 2),
      (alert_at 1 PNone PNone False, None),
      (alert_at 3 PNone (PFloat 125) True, None)]"
  by (simp add: alerts_with_distance_def get_distance_def responder_def dict_get_def
      alert_at_def distance_key_def)

theorem alerts_with_distance_sorted_stable_witness:
  "snd (alerts_with_distance taxicab responder
     [alert_at 1 PNone PNone False, alert_at 2 (PFloat 9) (PFloat 127) False,
      alert_at 3 PNone (PFloat 125) True, alert_at 4 (PFloat 10) (PFloat 125) True,
      alert_at 5 (PFloat 11) (PFloat 125) False] ! 3) = None
   \<and> snd (alerts_with_distance taxicab responder
     [alert_at 1 PNone PNone False, alert_at 2 (PFloat 9) (PFloat 127) False,
      alert_at 3 PNone (PFloat 125) True, alert_at 4 (PFloat 10) (PFloat 125) True,
      alert_at 5 (PFloat 11) (PFloat 125) False] ! 4) = None"
proof -
  let ?in = "[alert_at 1 PNone PNone False, alert_at 2 (PFloat 9) (PFloat 127) False,
      alert_at 3 PNone (PFloat 125) True, alert_at 4 (PFloat 10) (PFloat 125) True,
      alert_at 5 (PFloat 11) (PFloat 125) False]"
  have h: "snd (alerts_with_distance taxicab responder ?in ! 3) = None"
    by (simp add: ranking_example)
  have "(3::nat) < 4 \<and> 4 < length ?in \<and> snd (alerts_with_distance taxicab responder ?in ! 3) = None"
    using h by simp
  with alerts_with_distance_sorted_stable [of taxicab responder ?in]
  have "snd (alerts_with_distance taxicab responder ?in ! 4) = None"
    by blast
  with h show ?thesis by simp
qed

text \<open>
  C2. Partitioning a ranked sequence by the handled flag gives two sequences whose
  multiset union is the input (nothing duplicated, nothing dropped), each a subsequence of
  the ranked input (relative order kept), the first holding exactly the unhandled entries
  and the second exactly the handled ones.
\<close>

theorem partition_by_handled:
  "mset (unresolved_alerts ranked) + mset (resolved_alerts ranked) = mset ranked
   \<and> subseq (unresolved_alerts ranked) ranked
   \<and> subseq (resolved_alerts ranked) ranked
   \<and> (\<forall>t \<in> set ranked. (t \<in> set (unresolved_alerts ranked)) = (\<not> handled (fst t)))
   \<and> (\<forall>t \<in> set ranked. (t \<in> set (resolved_alerts ranked)) = handled (fst t))
   \<and> length (unresolved_alerts ranked) + length (resolved_alerts ranked) = length ranked"
proof -
  have a: "mset (unresolved_alerts ranked) + mset (resolved_alerts ranked) = mset ranked"
    unfolding unresolved_alerts_def resolved_alerts_def
    by (induction ranked) simp_all
  have b: "subseq (unresolved_alerts ranked) ranked"
    by (simp add: unresolved_alerts_def)
  have c: "subseq (resolved_alerts ranked) ranked"
    by (simp add: resolved_alerts_def)
  have d: "\<forall>t \<in> set ranked. (t \<in> set (unresolved_alerts ranked)) = (\<not> handled (fst t))"
    by (simp add: unresolved_alerts_def)
  have e: "\<forall>t \<in> set ranked. (t \<in> set (resolved_alerts ranked)) = handled (fst t)"
    by (simp add: resolved_alerts_def)
  have f: "length (unresolved_alerts ranked) + length (resolved_alerts ranked) = length ranked"
    using a by (metis size_mset size_union)
  from a b c d e f show ?thesis by blast
qed

theorem partition_by_handled_witness:
  "unresolved_alerts [(alert_at 4 PNone PNone True, Some 1), (alert_at 2 PNone PNone False, Some 2),
                      (alert_at 1 PNone PNone False, None)]
     = [(alert_at 2 PNone PNone False, Some 2), (alert_at 1 PNone PNone False, None)]
   \<and> (alert_at 4 PNone PNone True, Some 1)
        \<in> set (resolved_alerts [(alert_at 4 PNone PNone True, Some 1),
               (alert_at 2 PNone PNone False, Some 2), (alert_at 1 PNone PNone False, None)])"
proof -
  let ?r = "[(alert_at 4 PNone PNone True, Some (1::real)), (alert_at 2 PNone PNone False, Some 2),
             (alert_at 1 PNone PNone False, None)]"
  have m: "(alert_at 4 PNone PNone True, Some 1) \<in> set ?r"
    by simp
  have h: "handled (fst (alert_at 4 PNone PNone True, Some (1::real)))"
    by (simp add: alert_at_def)
  have "(alert_at 4 PNone PNone True, Some 1) \<in> set (resolved_alerts ?r)"
    using partition_by_handled [of ?r] m h by blast
  moreover have "unresolved_alerts ?r
     = [(alert_at 2 PNone PNone False, Some 2), (alert_at 1 PNone PNone False, None)]"
    by (simp add: unresolved_alerts_def alert_at_def)
  ultimately show ?thesis by simp
qed

section \<open>The nearest responder of a citizen\<close>

lemma nearest_step_zero:
  assumes "\<exists>c. map_of hotline_coords (Address h) = Some c
             \<and> gd uc (PFloat (fst c), PFloat (snd c)) = Some 0"
  shows "nearest_step gd uc hotline_coords acc h = acc"
  using assms by (auto simp: nearest_step_def get_distance_def)

lemma nearest_fold_zero:
  assumes "\<forall>h \<in> set hotlines. \<exists>c. map_of hotline_coords (Address h) = Some c
             \<and> gd uc (PFloat (fst c), PFloat (snd c)) = Some 0"
  shows "foldl (nearest_step gd uc hotline_coords) acc hotlines = acc"
  using assms
proof (induction hotlines arbitrary: acc)
  case Nil
  then show ?case by simp
next
  case (Cons h hs)
  then show ?case by (simp add: nearest_step_zero)
qed

text \<open>
  C3 (the code at the failing input). The claim has the nearest facility returned whenever
  some facility has a coordinate, a coordinate at distance zero included. The program
  tests \<open>if distance and ...\<close>, so a facility at distance zero is skipped: when every
  hotline has a cached coordinate and lies at distance zero from the user, no nearest
  responder is found. This is the state after a registration and a hotline lookup whose
  geocoding both fell back to the town centre.
\<close>

theorem nearest_responder_skips_zero_distance:
  assumes "\<forall>h \<in> set hotlines. \<exists>c. map_of hotline_coords (Address h) = Some c
             \<and> gd (dict_get user ''latitude'', dict_get user ''longitude'')
                  (PFloat (fst c), PFloat (snd c)) = Some 0"
  shows "nearest_responder gd user hotline_coords hotlines = None"
proof -
  have "foldl (nearest_step gd (dict_get user ''latitude'', dict_get user ''longitude'') hotline_coords)
          (Infinity, None) hotlines = (Infinity, None)"
    using assms by (rule nearest_fold_zero)
  then show ?thesis
    by (simp add: nearest_responder_def)
qed

lemma bob_registered:
  "users (add_user offline bob_form initialize_session_state)
     = [[(''role'', PStr ''user''), (''username'', PStr ''bob''),
          (''password'', PStr ''secret''), (''name'', PStr ''Bob''),
          (''property_address'', PStr ''Poblacion''), (''id'', PInt 1),
          (''registered_on'', PStr ''2024-01-01 00:00:00''),
          (''latitude'', PFloat (fst CANTILAN_CENTER)),
          (''longitude'', PFloat (snd CANTILAN_CENTER))]]"
  by (simp add: add_user_def offline_def bob_form_def initialize_session_state_def
      dict_get_def geocode_address_def split_beta)

lemma hotlines_offline:
  "get_hotline_coordinates (geocoder_of offline) []
     = [(''Brgy. Center, Cantilan, Surigao del Sur'', CANTILAN_CENTER),
        (''Municipal Hall, Cantilan, Surigao del Sur'', CANTILAN_CENTER),
        (''Health Center, Cantilan, Surigao del Sur'', CANTILAN_CENTER)]"
  by (simp add: get_hotline_coordinates_def HOTLINES_def cache_hotline_def offline_def
      geocode_address_def)

theorem nearest_responder_skips_zero_distance_witness:
  "nearest_responder taxicab (hd (users (add_user offline bob_form initialize_session_state)))
     (get_hotline_coordinates (geocoder_of offline) []) HOTLINES = None"
proof -
  let ?u = "hd (users (add_user offline bob_form initialize_session_state))"
  have "\<forall>h \<in> set HOTLINES. \<exists>c.
          map_of (get_hotline_coordinates (geocoder_of offline) []) (Address h) = Some c
          \<and> taxicab (dict_get ?u ''latitude'', dict_get ?u ''longitude'')
               (PFloat (fst c), PFloat (snd c)) = Some 0"
    by (simp add: hotlines_offline bob_registered HOTLINES_def dict_get_def prod_eq_iff)
  then show ?thesis
    by (rule nearest_responder_skips_zero_distance)
qed

section \<open>The exported columns\<close>

lemma set_union_keys: "set (union_keys seen ks) = set seen \<union> set ks"
  by (induction ks arbitrary: seen) auto

lemma password_is_column:
  assumes "u \<in> set us" and "(''password'', v) \<in> set u"
  shows "''password'' \<in> set (DataFrame_columns us)"
proof -
  from assms have "''password'' \<in> set (concat (map (map fst) us))"
    by force
  then show ?thesis
    by (simp add: DataFrame_columns_def set_union_keys)
qed

text \<open>
  C4 (the code at the failing input). The claim has the export leave the password out. The
  program exports the whole data frame: whenever a user has a password field, the header
  row has a \<open>password\<close> column and each user's row holds that user's password in it.
\<close>

theorem export_users_csv_has_password:
  assumes "u \<in> set (users st)" and "(''password'', v) \<in> set u"
  shows "\<exists>header body. export_users_csv st = Some (header # body)
           \<and> PStr ''password'' \<in> set header
           \<and> length body = length (users st)
           \<and> (\<forall>i < length (users st). \<forall>j < length header.
                 header ! j = PStr ''password''
                   \<longrightarrow> body ! i ! j = dict_get (users st ! i) ''password'')"
proof -
  let ?cols = "DataFrame_columns (users st)"
  let ?header = "map PStr ?cols"
  let ?body = "map (\<lambda>row. map (dict_get row) ?cols) (users st)"
  from assms(1) have ne: "users st \<noteq> []" by auto
  then have e: "export_users_csv st = Some (?header # ?body)"
    by (simp add: export_users_csv_def to_csv_def Let_def)
  have p: "PStr ''password'' \<in> set ?header"
    using password_is_column [OF assms] by simp
  have c: "\<forall>i < length (users st). \<forall>j < length ?header.
             ?header ! j = PStr ''password''
               \<longrightarrow> ?body ! i ! j = dict_get (users st ! i) ''password''"
    by simp
  from e p c show ?thesis
    by (intro exI [of _ ?header] exI [of _ ?body]) simp
qed

lemma bob_csv:
  "export_users_csv (add_user offline bob_form initialize_session_state)
     = Some [[PStr ''role'', PStr ''username'', PStr ''password'', PStr ''name'',
              PStr ''property_address'', PStr ''id'', PStr ''registered_on'',
              PStr ''latitude'', PStr ''longitude''],
             [PStr ''user'', PStr ''bob'', PStr ''secret'', PStr ''Bob'', PStr ''Poblacion'',
              PInt 1, PStr ''2024-01-01 00:00:00'', PFloat (fst CANTILAN_CENTER),
              PFloat (snd CANTILAN_CENTER)]]"
  by (simp add: export_users_csv_def to_csv_def DataFrame_columns_def bob_registered dict_get_def)

theorem export_users_csv_has_password_witness:
  "\<exists>header body. export_users_csv (add_user offline bob_form initialize_session_state)
                    = Some (header # body)
      \<and> PStr ''password'' \<in> set header \<and> body ! 0 ! 2 = PStr ''secret''"
proof -
  let ?st = "add_user offline bob_form initialize_session_state"
  have u: "hd (users ?st) \<in> set (users ?st)"
    by (simp add: bob_registered)
  have v: "(''password'', PStr ''secret'') \<in> set (hd (users ?st))"
    by (simp add: bob_registered)
  from export_users_csv_has_password [OF u v]
  obtain header body where h: "export_users_csv ?st = Some (header # body)"
    "PStr ''password'' \<in> set header" by blast
  from h(1) have "body ! 0 ! 2 = PStr ''secret''"
    unfolding bob_csv by auto
  with h show ?thesis by blast
qed

section \<open>Identifiers\<close>

lemma users_after_delete_and_signup:
  "users (run [(offline, AddUser bob_form), (offline, AddUser alice_form),
               (offline, DeleteUser 1), (offline, AddUser carol_form)] initialize_session_state)
   = [[(''role'', PStr ''admin''), (''username'', PStr ''alice''),
       (''password'', PStr ''pw''), (''name'', PStr ''Alice''),
       (''property_address'', PStr ''Municipal Hall''), (''id'', PInt 2),
       (''registered_on'', PStr ''2024-01-01 00:00:00''),
       (''latitude'', PFloat (fst CANTILAN_CENTER)),
       (''longitude'', PFloat (snd CANTILAN_CENTER))],
      [(''role'', PStr ''user''), (''username'', PStr ''carol''),
       (''password'', PStr ''pw2''), (''name'', PStr ''Carol''),
       (''property_address'', PStr ''Magasang''), (''id'', PInt 2),
       (''registered_on'', PStr ''2024-01-01 00:00:00''),
       (''latitude'', PFloat (fst CANTILAN_CENTER)),
       (''longitude'', PFloat (snd CANTILAN_CENTER))]]"
  by (simp add: add_user_def delete_user_by_id_def offline_def bob_form_def alice_form_def
      carol_form_def initialize_session_state_def dict_get_def geocode_address_def split_beta)

text \<open>
  C5 (the code at the failing input). Ids are \<open>len(collection) + 1\<close>. After two signups,
  the deletion of user 1 and one more signup, two users have id 2; after two alerts, the
  deletion of the first alert's user and one more alert, two alerts have id 2.
\<close>

theorem ids_collide_after_delete:
  "map (\<lambda>u. dict_get u ''id'')
     (users (run [(offline, AddUser bob_form), (offline, AddUser alice_form),
                  (offline, DeleteUser 1), (offline, AddUser carol_form)]
               initialize_session_state))
     = [PInt 2, PInt 2]
   \<and> map sos_id
       (sos_logs (run [(offline, AddUser bob_form), (offline, AddUser alice_form),
                       (offline, LogSos (PInt 1) (PStr ''Bob'') PNone PNone [] None),
                       (offline, LogSos (PInt 2) (PStr ''Alice'') PNone PNone [] None),
                       (offline, DeleteUser 1),
                       (offline, LogSos (PInt 2) (PStr ''Alice'') PNone PNone [] None)]
                    initialize_session_state))
     = [2, 2]"
proof -
  have a: "map (\<lambda>u. dict_get u ''id'')
     (users (run [(offline, AddUser bob_form), (offline, AddUser alice_form),
                  (offline, DeleteUser 1), (offline, AddUser carol_form)]
               initialize_session_state))
     = [PInt 2, PInt 2]"
    by (simp only: users_after_delete_and_signup) (simp add: dict_get_def)
  have b: "map sos_id
       (sos_logs (run [(offline, AddUser bob_form), (offline, AddUser alice_form),
                       (offline, LogSos (PInt 1) (PStr ''Bob'') PNone PNone [] None),
                       (offline, LogSos (PInt 2) (PStr ''Alice'') PNone PNone [] None),
                       (offline, DeleteUser 1),
                       (offline, LogSos (PInt 2) (PStr ''Alice'') PNone PNone [] None)]
                    initialize_session_state))
     = [2, 2]"
    by (simp add: add_user_def delete_user_by_id_def log_sos_def initialize_session_state_def
        split_beta Let_def)
  from a b show ?thesis by simp
qed

section \<open>The administrator's own account\<close>

text \<open>
  C10. When the id to delete is the id of the logged-in administrator, the delete action
  reports an error and leaves the store unchanged; and whatever id is entered, an
  administrator who is in the user collection is still in it after the action.
\<close>

theorem delete_user_action_keeps_self:
  "(py_eq_int (dict_get user ''id'') target \<longrightarrow>
      delete_user_action user target st
        = (if target > 0 then Some (Error ''You cannot delete your own account!'') else None, st))
   \<and> (user \<in> set (users st) \<longrightarrow> user \<in> set (users (snd (delete_user_action user target st))))"
  by (simp add: delete_user_action_def delete_user_by_id_def)

theorem delete_user_action_keeps_self_witness:
  "delete_user_action (hd (users (add_user offline bob_form initialize_session_state))) 1
     (add_user offline bob_form initialize_session_state)
   = (Some (Error ''You cannot delete your own account!''),
      add_user offline bob_form initialize_session_state)
   \<and> hd (users (add_user offline bob_form initialize_session_state))
       \<in> set (users (snd (delete_user_action
              (hd (users (add_user offline bob_form initialize_session_state))) 1
              (add_user offline bob_form initialize_session_state))))"
proof -
  let ?st = "add_user offline bob_form initialize_session_state"
  have i: "py_eq_int (dict_get (hd (users ?st)) ''id'') 1"
    by (simp add: bob_registered dict_get_def)
  have m: "hd (users ?st) \<in> set (users ?st)"
    by (simp add: bob_registered)
  from delete_user_action_keeps_self [of "hd (users ?st)" 1 ?st] i m
  show ?thesis by simp
qed

section \<open>The handled flag\<close>

lemma mark_first_absent: "(\<forall>a \<in> set logs. sos_id a \<noteq> sid) \<Longrightarrow> mark_first sid logs = logs"
  by (induction logs) auto

lemma mark_first_present:
  "\<exists>a \<in> set logs. sos_id a = sid \<Longrightarrow>
     \<exists>i < length logs. sos_id (logs ! i) = sid \<and> (\<forall>j < i. sos_id (logs ! j) \<noteq> sid)
        \<and> mark_first sid logs = logs[i := (logs ! i)\<lparr>handled := True\<rparr>]"
proof (induction logs)
  case Nil
  then show ?case by simp
next
  case (Cons a rest)
  show ?case
  proof (cases "sos_id a = sid")
    case True
    then have "0 < length (a # rest) \<and> sos_id ((a # rest) ! 0) = sid
        \<and> (\<forall>j < 0. sos_id ((a # rest) ! j) \<noteq> sid)
        \<and> mark_first sid (a # rest) = (a # rest)[0 := ((a # rest) ! 0)\<lparr>handled := True\<rparr>]"
      by simp
    then show ?thesis by blast
  next
    case False
    with Cons.prems have "\<exists>b \<in> set rest. sos_id b = sid" by auto
    from Cons.IH [OF this] obtain i where i: "i < length rest" "sos_id (rest ! i) = sid"
      "\<forall>j < i. sos_id (rest ! j) \<noteq> sid"
      "mark_first sid rest = rest[i := (rest ! i)\<lparr>handled := True\<rparr>]" by blast
    have "\<forall>j < Suc i. sos_id ((a # rest) ! j) \<noteq> sid"
    proof (intro allI impI)
      fix j assume "j < Suc i"
      then show "sos_id ((a # rest) ! j) \<noteq> sid"
        using False i(3) by (cases j) auto
    qed
    with i False have "Suc i < length (a # rest) \<and> sos_id ((a # rest) ! Suc i) = sid
        \<and> (\<forall>j < Suc i. sos_id ((a # rest) ! j) \<noteq> sid)
        \<and> mark_first sid (a # rest) = (a # rest)[Suc i := ((a # rest) ! Suc i)\<lparr>handled := True\<rparr>]"
      by simp
    then show ?thesis by blast
  qed
qed

lemma mark_first_idem: "mark_first sid (mark_first sid logs) = mark_first sid logs"
  by (induction logs) auto

lemma mark_first_kept: "list_all2 handled_kept logs (mark_first sid logs)"
  by (induction logs) (auto simp: handled_kept_def list_all2_same)

lemma handled_kept_same: "list_all2 handled_kept logs logs"
  by (simp add: list_all2_same handled_kept_def)

lemma step_keeps_handled:
  "(case x of
      DeleteUser uid \<Rightarrow>
        sos_logs (apply_op w x st) = filter (\<lambda>log. \<not> py_eq_int (user_id log) uid) (sos_logs st)
    | _ \<Rightarrow>
        (\<exists>kept fresh. list_all2 handled_kept (sos_logs st) kept
           \<and> list_all (\<lambda>a. \<not> handled a) fresh
           \<and> sos_logs (apply_op w x st) = kept @ fresh))"
proof (cases x)
  case (AddUser user)
  have "list_all2 handled_kept (sos_logs st) (sos_logs st)
      \<and> list_all (\<lambda>a. \<not> handled a) [] \<and> sos_logs (apply_op w x st) = sos_logs st @ []"
    by (simp add: AddUser add_user_def Let_def split_beta handled_kept_same)
  then have "\<exists>kept fresh. list_all2 handled_kept (sos_logs st) kept
           \<and> list_all (\<lambda>a. \<not> handled a) fresh
           \<and> sos_logs (apply_op w x st) = kept @ fresh"
    by blast
  then show ?thesis by (simp add: AddUser)
next
  case (DeleteUser uid)
  then show ?thesis
    by (simp add: delete_user_by_id_def)
next
  case (LogSos uid uname la lo nt cat)
  let ?new = "\<lparr>sos_id = int (length (sos_logs st)) + 1, user_id = uid, user_name = uname,
                timestamp = now w, lat = la, lon = lo, sos_note = nt, handled = False,
                category = cat, address = get_address_from_coords (reverse_of w) la lo\<rparr>"
  have "list_all2 handled_kept (sos_logs st) (sos_logs st)
      \<and> list_all (\<lambda>a. \<not> handled a) [?new] \<and> sos_logs (apply_op w x st) = sos_logs st @ [?new]"
    by (simp add: LogSos log_sos_def Let_def handled_kept_same)
  then have "\<exists>kept fresh. list_all2 handled_kept (sos_logs st) kept
           \<and> list_all (\<lambda>a. \<not> handled a) fresh
           \<and> sos_logs (apply_op w x st) = kept @ fresh"
    by blast
  then show ?thesis by (simp add: LogSos)
next
  case (MarkHandled sid)
  have "list_all2 handled_kept (sos_logs st) (mark_first sid (sos_logs st))
      \<and> list_all (\<lambda>a. \<not> handled a) []
      \<and> sos_logs (apply_op w x st) = mark_first sid (sos_logs st) @ []"
    by (simp add: MarkHandled mark_sos_handled_def mark_first_kept)
  then have "\<exists>kept fresh. list_all2 handled_kept (sos_logs st) kept
           \<and> list_all (\<lambda>a. \<not> handled a) fresh
           \<and> sos_logs (apply_op w x st) = kept @ fresh"
    by blast
  then show ?thesis by (simp add: MarkHandled)
next
  case (AddReport rid rname cat descr la lo)
  have "list_all2 handled_kept (sos_logs st) (sos_logs st)
      \<and> list_all (\<lambda>a. \<not> handled a) [] \<and> sos_logs (apply_op w x st) = sos_logs st @ []"
    by (simp add: AddReport add_report_def Let_def handled_kept_same)
  then have "\<exists>kept fresh. list_all2 handled_kept (sos_logs st) kept
           \<and> list_all (\<lambda>a. \<not> handled a) fresh
           \<and> sos_logs (apply_op w x st) = kept @ fresh"
    by blast
  then show ?thesis by (simp add: AddReport)
qed

text \<open>
  C9. \<open>mark_sos_handled\<close> sets \<open>handled\<close> on the first alert with the id and changes
  nothing else (no other field, no other alert, no user, no report); without such an alert
  it changes nothing; applied again it changes nothing more. No operation clears the flag:
  a deletion keeps the remaining alerts as they were, and after any other operation every
  alert of the store before is still there, in place, as it was or with \<open>handled\<close> set,
  followed by the new alerts, which are unhandled.
\<close>

theorem handled_only_ever_set:
  "((\<forall>a \<in> set (sos_logs st). sos_id a \<noteq> sid) \<longrightarrow> mark_sos_handled sid st = st)
   \<and> ((\<exists>a \<in> set (sos_logs st). sos_id a = sid) \<longrightarrow>
        (\<exists>i < length (sos_logs st). sos_id (sos_logs st ! i) = sid
           \<and> (\<forall>j < i. sos_id (sos_logs st ! j) \<noteq> sid)
           \<and> mark_sos_handled sid st
               = st\<lparr>sos_logs := (sos_logs st)[i := (sos_logs st ! i)\<lparr>handled := True\<rparr>]\<rparr>))
   \<and> mark_sos_handled sid (mark_sos_handled sid st) = mark_sos_handled sid st
   \<and> (case x of
        DeleteUser uid \<Rightarrow>
          sos_logs (apply_op w x st) = filter (\<lambda>log. \<not> py_eq_int (user_id log) uid) (sos_logs st)
      | _ \<Rightarrow>
          (\<exists>kept fresh. list_all2 handled_kept (sos_logs st) kept
             \<and> list_all (\<lambda>a. \<not> handled a) fresh
             \<and> sos_logs (apply_op w x st) = kept @ fresh))"
proof -
  have a: "(\<forall>a \<in> set (sos_logs st). sos_id a \<noteq> sid) \<longrightarrow> mark_sos_handled sid st = st"
    by (simp add: mark_sos_handled_def mark_first_absent)
  have b: "(\<exists>a \<in> set (sos_logs st). sos_id a = sid) \<longrightarrow>
        (\<exists>i < length (sos_logs st). sos_id (sos_logs st ! i) = sid
           \<and> (\<forall>j < i. sos_id (sos_logs st ! j) \<noteq> sid)
           \<and> mark_sos_handled sid st
               = st\<lparr>sos_logs := (sos_logs st)[i := (sos_logs st ! i)\<lparr>handled := True\<rparr>]\<rparr>)"
  proof
    assume "\<exists>a \<in> set (sos_logs st). sos_id a = sid"
    from mark_first_present [OF this] obtain i where "i < length (sos_logs st)"
      "sos_id (sos_logs st ! i) = sid" "\<forall>j < i. sos_id (sos_logs st ! j) \<noteq> sid"
      "mark_first sid (sos_logs st) = (sos_logs st)[i := (sos_logs st ! i)\<lparr>handled := True\<rparr>]"
      by blast
    then show "\<exists>i < length (sos_logs st). sos_id (sos_logs st ! i) = sid
           \<and> (\<forall>j < i. sos_id (sos_logs st ! j) \<noteq> sid)
           \<and> mark_sos_handled sid st
               = st\<lparr>sos_logs := (sos_logs st)[i := (sos_logs st ! i)\<lparr>handled := True\<rparr>]\<rparr>"
      unfolding mark_sos_handled_def by metis
  qed
  have c: "mark_sos_handled sid (mark_sos_handled sid st) = mark_sos_handled sid st"
    by (simp add: mark_sos_handled_def mark_first_idem)
  from a b c step_keeps_handled [where x = x and w = w and st = st] show ?thesis by blast
qed

theorem handled_only_ever_set_witness:
  "\<exists>i < 2. mark_sos_handled 2
        \<lparr>users = [], sos_logs = [alert_at 1 PNone PNone False, alert_at 2 PNone PNone False],
         reports = []\<rparr>
      = \<lparr>users = [],
         sos_logs = [alert_at 1 PNone PNone False, alert_at 2 PNone PNone False]
            [i := alert_at 2 PNone PNone True],
         reports = []\<rparr>"
proof -
  let ?st = "\<lparr>users = [], sos_logs = [alert_at 1 PNone PNone False, alert_at 2 PNone PNone False],
         reports = []\<rparr>"
  have "\<exists>a \<in> set (sos_logs ?st). sos_id a = 2"
    by (simp add: alert_at_def)
  with handled_only_ever_set [of ?st 2]
  obtain i where i: "i < length (sos_logs ?st)" "sos_id (sos_logs ?st ! i) = 2"
    "mark_sos_handled 2 ?st = ?st\<lparr>sos_logs := (sos_logs ?st)[i := (sos_logs ?st ! i)\<lparr>handled := True\<rparr>]\<rparr>"
    by blast
  from i(1) have "i = 0 \<or> i = 1" by auto
  with i(2) have "i = 1" by (auto simp: alert_at_def)
  with i(3) have "mark_sos_handled 2 ?st
      = \<lparr>users = [],
         sos_logs = [alert_at 1 PNone PNone False, alert_at 2 PNone PNone False]
            [1 := alert_at 2 PNone PNone True],
         reports = []\<rparr>"
    by (simp add: alert_at_def)
  then show ?thesis by (intro exI [of _ 1]) simp
qed

section \<open>Dictionary updates and appended records\<close>


lemma dict_get_set_other: "k' \<noteq> k \<Longrightarrow> dict_get (dict_set d k v) k' = dict_get d k'"
  by (induction d k v rule: dict_set.induct) (simp_all add: dict_get_def)






section \<open>What the pages keep true of the session\<close>

lemma add_user_appends:
  "\<exists>u. users (add_user w user st) = users st @ [u]"
  by (simp add: add_user_def Let_def split_beta)

lemma add_user_sos_logs: "sos_logs (add_user w user st) = sos_logs st"
  by (simp add: add_user_def Let_def split_beta)

lemma signup_users: "set (users st) \<subseteq> set (users (signup w user st))"
proof (cases "signup w user st = st")
  case True
  then show ?thesis by simp
next
  case False
  then have "signup w user st = add_user w user st"
    by (auto simp: signup_def split: pyval.splits if_splits)
  with add_user_appends [of w user st] show ?thesis by auto
qed

lemma signup_sos_logs: "sos_logs (signup w user st) = sos_logs st"
  by (auto simp: signup_def add_user_sos_logs split: pyval.splits)

lemma send_users: "users (snd (send_emergency_alert w c ur temp nt cat st)) = users st"
  by (auto simp: send_emergency_alert_def log_sos_def Let_def split: option.splits)

lemma send_sos_logs:
  "sos_logs (snd (send_emergency_alert w c ur temp nt cat st)) = sos_logs st
   \<or> (\<exists>r. sos_logs (snd (send_emergency_alert w c ur temp nt cat st)) = sos_logs st @ [r]
          \<and> user_id r = dict_get c ''id'')"
  by (auto simp: send_emergency_alert_def log_sos_def Let_def split: option.splits)

lemma regeocode_id: "dict_get (regeocode w c) ''id'' = dict_get c ''id''"
  by (auto simp: regeocode_def dict_get_set_other split: option.splits)

lemma mark_first_user_ids:
  "list_all (\<lambda>a. Q (user_id a)) logs \<Longrightarrow> list_all (\<lambda>a. Q (user_id a)) (mark_first sid logs)"
  by (induction logs) auto

lemma submit_keeps:
  "users (snd (submit_official_report w c la lo cat descr addr st)) = users st
   \<and> sos_logs (snd (submit_official_report w c la lo cat descr addr st)) = sos_logs st"
  by (auto simp: submit_official_report_def add_report_def Let_def split: option.splits)

lemma set_update_same_id:
  assumes "i < length us" and "f (us ! i) = f c'" and "u \<in> set us"
  shows "\<exists>u' \<in> set (us[i := c']). f u' = f u"
proof -
  from assms(3) obtain j where j: "j < length us" "us ! j = u"
    by (auto simp: in_set_conv_nth)
  show ?thesis
  proof (cases "j = i")
    case True
    with assms j have "c' \<in> set (us[i := c']) \<and> f c' = f u"
      by (auto simp: set_update_memI)
    then show ?thesis by blast
  next
    case False
    with j have "us[i := c'] ! j = u \<and> j < length (us[i := c'])" by simp
    then have "u \<in> set (us[i := c'])" by (metis nth_mem)
    then show ?thesis by blast
  qed
qed

lemma perform_keeps:
  assumes "alerts_have_users s"
  shows "alerts_have_users (perform w a s)"
proof -
  from assms have al: "\<forall>x \<in> set (sos_logs (db s)). \<exists>u \<in> set (users (db s)). dict_get u ''id'' = user_id x"
    by (simp add: alerts_have_users_def list_all_iff list_ex_iff)
  from assms have cu: "\<forall>c. current_user s = Some c \<longrightarrow> c \<in> set (users (db s))"
    by (auto simp: alerts_have_users_def split: option.splits)
  show ?thesis
  proof (cases a)
    case (Signup user)
    show ?thesis
    proof (cases "current_user s")
      case None
      with al signup_users [of "db s" w user] show ?thesis
        by (simp add: Signup alerts_have_users_def list_all_iff list_ex_iff signup_sos_logs) blast
    next
      case (Some c)
      with assms show ?thesis by (simp add: Signup)
    qed
  next
    case (Login username password)
    show ?thesis
    proof (cases "current_user s")
      case None
      show ?thesis
      proof (cases "validate_login (users (db s)) username password")
        case n: None
        with None assms show ?thesis by (simp add: Login)
      next
        case (Some user)
        then have "user \<in> set (users (db s))"
          using validate_login_Some by blast
        with None Some al show ?thesis
          by (simp add: Login alerts_have_users_def list_all_iff list_ex_iff)
      qed
    next
      case (Some c)
      with assms show ?thesis by (simp add: Login)
    qed
  next
    case Logout
    with al show ?thesis
      by (simp add: alerts_have_users_def list_all_iff list_ex_iff)
  next
    case (SendAlert ur temp nt cat)
    show ?thesis
    proof (cases "current_user s")
      case None
      with assms show ?thesis by (simp add: SendAlert)
    next
      case (Some c)
      with cu have c: "c \<in> set (users (db s))" by simp
      show ?thesis
      proof (cases "has_role c ''user''")
        case False
        with Some assms show ?thesis by (simp add: SendAlert)
      next
        case True
        let ?d = "snd (send_emergency_alert w c ur temp nt cat (db s))"
        have "\<forall>x \<in> set (sos_logs ?d). \<exists>u \<in> set (users (db s)). dict_get u ''id'' = user_id x"
          using send_sos_logs [of w c ur temp nt cat "db s"] al c by fastforce
        with True Some c show ?thesis
          by (simp add: SendAlert alerts_have_users_def list_all_iff list_ex_iff send_users)
      qed
    qed
  next
    case (Regeocode i)
    show ?thesis
    proof (cases "current_user s")
      case None
      with assms show ?thesis by (simp add: Regeocode)
    next
      case (Some c)
      show ?thesis
      proof (cases "has_role c ''user'' \<and> i < length (users (db s)) \<and> users (db s) ! i = c")
        case False
        with Some assms show ?thesis by (auto simp: Regeocode)
      next
        case True
        let ?us = "(users (db s))[i := regeocode w c]"
        have "\<forall>x \<in> set (sos_logs (db s)). \<exists>u \<in> set ?us. dict_get u ''id'' = user_id x"
        proof
          fix x assume "x \<in> set (sos_logs (db s))"
          with al obtain u where u: "u \<in> set (users (db s))" "dict_get u ''id'' = user_id x"
            by blast
          from True have "i < length (users (db s))"
            and "dict_get (users (db s) ! i) ''id'' = dict_get (regeocode w c) ''id''"
            by (simp_all add: regeocode_id)
          from set_update_same_id [of i "users (db s)" "\<lambda>u. dict_get u ''id''" "regeocode w c" u, OF this u(1)]
          show "\<exists>u \<in> set ?us. dict_get u ''id'' = user_id x"
            using u(2) by auto
        qed
        moreover from True have "regeocode w c \<in> set ?us"
          by (simp add: set_update_memI)
        ultimately show ?thesis
          using True Some
          by (simp add: Regeocode alerts_have_users_def list_all_iff list_ex_iff)
      qed
    qed
  next
    case (HandleAlert sid)
    show ?thesis
    proof (cases "current_user s")
      case None
      with assms show ?thesis by (simp add: HandleAlert)
    next
      case (Some c)
      from assms have "list_all (\<lambda>a. list_ex (\<lambda>u. dict_get u ''id'' = user_id a) (users (db s)))
                         (sos_logs (db s))"
        by (simp add: alerts_have_users_def)
      then have "list_all (\<lambda>a. list_ex (\<lambda>u. dict_get u ''id'' = user_id a) (users (db s)))
                         (mark_first sid (sos_logs (db s)))"
        by (rule mark_first_user_ids)
      with Some cu assms show ?thesis
        by (simp add: HandleAlert alerts_have_users_def mark_sos_handled_def)
    qed
  next
    case (SubmitReport la lo cat descr addr)
    show ?thesis
    proof (cases "current_user s")
      case None
      with assms show ?thesis by (simp add: SubmitReport)
    next
      case (Some c)
      with assms show ?thesis
        by (simp add: SubmitReport alerts_have_users_def submit_keeps)
    qed
  next
    case (DeleteAccount target)
    show ?thesis
    proof (cases "current_user s")
      case None
      with assms show ?thesis by (simp add: DeleteAccount)
    next
      case (Some c)
      with cu have c: "c \<in> set (users (db s))" by simp
      show ?thesis
      proof (cases "has_role c ''admin'' \<and> target > 0 \<and> \<not> py_eq_int (dict_get c ''id'') target")
        case False
        with Some assms show ?thesis
          by (auto simp: DeleteAccount delete_user_action_def)
      next
        case True
        then have d: "snd (delete_user_action c target (db s)) = delete_user_by_id target (db s)"
          by (simp add: delete_user_action_def)
        have "\<forall>x \<in> set (sos_logs (delete_user_by_id target (db s))).
                \<exists>u \<in> set (users (delete_user_by_id target (db s))). dict_get u ''id'' = user_id x"
        proof
          fix x assume "x \<in> set (sos_logs (delete_user_by_id target (db s)))"
          then have x: "x \<in> set (sos_logs (db s))" "\<not> py_eq_int (user_id x) target"
            by (simp_all add: delete_user_by_id_def)
          with al obtain u where u: "u \<in> set (users (db s))" "dict_get u ''id'' = user_id x"
            by blast
          with x(2) have "u \<in> set (users (delete_user_by_id target (db s)))"
            by (simp add: delete_user_by_id_def)
          with u(2) show "\<exists>u \<in> set (users (delete_user_by_id target (db s))).
                            dict_get u ''id'' = user_id x"
            by blast
        qed
        moreover from True c have "c \<in> set (users (delete_user_by_id target (db s)))"
          by (simp add: delete_user_by_id_def)
        ultimately show ?thesis
          using True Some d
          by (simp add: DeleteAccount alerts_have_users_def list_all_iff list_ex_iff)
      qed
    qed
  qed
qed

lemma perform_all_keeps:
  "alerts_have_users s \<Longrightarrow> alerts_have_users (perform_all steps s)"
proof (induction steps arbitrary: s)
  case Nil
  then show ?case by simp
next
  case (Cons step rest)
  obtain w a where "step = (w, a)" by (cases step)
  with Cons show ?case by (simp add: perform_keeps)
qed

lemma initial_session_ok: "alerts_have_users initial_session"
  by (simp add: alerts_have_users_def initial_session_def initialize_session_state_def)

lemma absent_user_has_no_alerts:
  assumes "alerts_have_users s"
    and "\<forall>user \<in> set (users (db s)). \<not> py_eq_int (dict_get user ''id'') uid"
  shows "\<forall>log \<in> set (sos_logs (db s)). \<not> py_eq_int (user_id log) uid"
proof
  fix log assume "log \<in> set (sos_logs (db s))"
  with assms(1) obtain u where "u \<in> set (users (db s))" "dict_get u ''id'' = user_id log"
    by (auto simp: alerts_have_users_def list_all_iff list_ex_iff)
  with assms(2) show "\<not> py_eq_int (user_id log) uid" by metis
qed

section \<open>Deleting a user\<close>

lemma offline_fields:
  "geocoder_of offline = (\<lambda>a. NotFound)"
  "reverse_of offline = (\<lambda>la lo. RevNotFound)"
  "now offline = ''2024-01-01 00:00:00''"
  by (simp_all add: offline_def)

lemma bob_session:
  "db (perform_all [(offline, Signup bob_form), (offline, Login ''bob'' ''secret''),
                    (offline, SendAlert True None ''Help'' ''Fire'')] initial_session)
   = \<lparr>users = users (add_user offline bob_form initialize_session_state),
      sos_logs = [\<lparr>sos_id = 1, user_id = PInt 1, user_name = PStr ''Bob'',
                   timestamp = ''2024-01-01 00:00:00'',
                   lat = PFloat (fst CANTILAN_CENTER), lon = PFloat (snd CANTILAN_CENTER),
                   sos_note = ''Help'', handled = False, category = Some ''Fire'',
                   address = ''Address not found''\<rparr>],
      reports = []\<rparr>"
proof -
  let ?st = "add_user offline bob_form initialize_session_state"
  have st: "?st = \<lparr>users = users ?st, sos_logs = [], reports = []\<rparr>"
    by (simp add: add_user_def initialize_session_state_def Let_def split_beta)
  have s1: "perform offline (Signup bob_form) initial_session
              = \<lparr>db = ?st, current_user = None\<rparr>"
    by (simp add: initial_session_def signup_def bob_form_def dict_get_def
        initialize_session_state_def)
  have s2: "perform offline (Login ''bob'' ''secret'') \<lparr>db = ?st, current_user = None\<rparr>
              = \<lparr>db = ?st, current_user = Some (hd (users ?st))\<rparr>"
    by (simp add: bob_registered dict_get_def)
  have s3: "db (perform offline (SendAlert True None ''Help'' ''Fire'')
                  \<lparr>db = ?st, current_user = Some (hd (users ?st))\<rparr>)
              = \<lparr>users = users ?st,
                 sos_logs = [\<lparr>sos_id = 1, user_id = PInt 1, user_name = PStr ''Bob'',
                   timestamp = ''2024-01-01 00:00:00'',
                   lat = PFloat (fst CANTILAN_CENTER), lon = PFloat (snd CANTILAN_CENTER),
                   sos_note = ''Help'', handled = False, category = Some ''Fire'',
                   address = ''Address not found''\<rparr>],
                 reports = []\<rparr>"
    apply (subst st)
    apply (simp add: bob_registered has_role_def dict_get_def send_emergency_alert_def
        log_sos_def py_or_def get_address_from_coords_def offline_fields Let_def)
    done
  show ?thesis
    by (simp only: perform_all.simps s1 s2 s3)
qed

text \<open>
  C6. Deleting a user id keeps, in order, exactly the users whose id differs and exactly
  the alerts whose \<open>user_id\<close> differs, and leaves the reports as they are; deleting the
  same id a second time changes nothing. In every state the session reaches, deleting an
  id that no user has leaves the store unchanged.
\<close>

theorem delete_user_by_id_removes_exactly:
  "users (delete_user_by_id uid st)
     = filter (\<lambda>user. \<not> py_eq_int (dict_get user ''id'') uid) (users st)
   \<and> sos_logs (delete_user_by_id uid st)
     = filter (\<lambda>log. \<not> py_eq_int (user_id log) uid) (sos_logs st)
   \<and> reports (delete_user_by_id uid st) = reports st
   \<and> delete_user_by_id uid (delete_user_by_id uid st) = delete_user_by_id uid st
   \<and> ((\<forall>user \<in> set (users (db (perform_all steps initial_session))).
          \<not> py_eq_int (dict_get user ''id'') uid)
        \<longrightarrow> delete_user_by_id uid (db (perform_all steps initial_session))
              = db (perform_all steps initial_session))"
proof -
  let ?s = "perform_all steps initial_session"
  have inv: "alerts_have_users ?s"
    using initial_session_ok by (rule perform_all_keeps)
  have noop: "(\<forall>user \<in> set (users (db ?s)). \<not> py_eq_int (dict_get user ''id'') uid)
        \<longrightarrow> delete_user_by_id uid (db ?s) = db ?s"
  proof
    assume a: "\<forall>user \<in> set (users (db ?s)). \<not> py_eq_int (dict_get user ''id'') uid"
    with inv have "\<forall>log \<in> set (sos_logs (db ?s)). \<not> py_eq_int (user_id log) uid"
      by (rule absent_user_has_no_alerts)
    with a show "delete_user_by_id uid (db ?s) = db ?s"
      by (simp add: delete_user_by_id_def)
  qed
  have rest: "users (delete_user_by_id uid st)
     = filter (\<lambda>user. \<not> py_eq_int (dict_get user ''id'') uid) (users st)
   \<and> sos_logs (delete_user_by_id uid st)
     = filter (\<lambda>log. \<not> py_eq_int (user_id log) uid) (sos_logs st)
   \<and> reports (delete_user_by_id uid st) = reports st
   \<and> delete_user_by_id uid (delete_user_by_id uid st) = delete_user_by_id uid st"
    by (simp add: delete_user_by_id_def)
  from rest noop show ?thesis by blast
qed

theorem delete_user_by_id_removes_exactly_witness:
  "delete_user_by_id 7
     (db (perform_all [(offline, Signup bob_form), (offline, Login ''bob'' ''secret''),
                       (offline, SendAlert True None ''Help'' ''Fire'')] initial_session))
   = db (perform_all [(offline, Signup bob_form), (offline, Login ''bob'' ''secret''),
                      (offline, SendAlert True None ''Help'' ''Fire'')] initial_session)
   \<and> length (sos_logs (db (perform_all [(offline, Signup bob_form),
                (offline, Login ''bob'' ''secret''),
                (offline, SendAlert True None ''Help'' ''Fire'')] initial_session))) = 1"
proof -
  let ?steps = "[(offline, Signup bob_form), (offline, Login ''bob'' ''secret''),
                 (offline, SendAlert True None ''Help'' ''Fire'')]"
  have u: "\<forall>user \<in> set (users (db (perform_all ?steps initial_session))).
             \<not> py_eq_int (dict_get user ''id'') 7"
    unfolding bob_session by (simp add: bob_registered dict_get_def)
  have l: "length (sos_logs (db (perform_all ?steps initial_session))) = 1"
    unfolding bob_session by simp
  note t = delete_user_by_id_removes_exactly [where uid = 7 and steps = ?steps
      and st = initialize_session_state]
  from t [THEN conjunct2, THEN conjunct2, THEN conjunct2, THEN conjunct2] u
  have "delete_user_by_id 7 (db (perform_all ?steps initial_session))
          = db (perform_all ?steps initial_session)"
    by (rule mp)
  with l show ?thesis by simp
qed

section \<open>Geocoding failure\<close>










end
